theory Spec2Isabelle
  imports Complex_Main "HOL-Library.Multiset"
begin

section \<open>GenreJinn reader: marks, notes and their persistence\<close>

text \<open>
  A shallow embedding of the annotation logic of the React component \<open>App\<close> and of the
  file server \<open>server.js\<close>. The component keeps two arrays in React state, \<open>marks\<close> and
  \<open>notes\<close>; every event handler reads the arrays of the render it was created in and
  installs new arrays. A handler is therefore a function from the application state to
  an outcome, the next application state and the list of HTTP requests it sends, in the
  order it sends them. The server keeps one JSON file per collection.

  Positions are the numbers returned by epub.js' \<open>locations.percentageFromCfi\<close>, which
  is not part of the repository: the embedding takes it as a field of the rendition, a
  function from a CFI string to \<open>null\<close> (\<open>None\<close>) or a number. A number is the rational it
  denotes; comparisons are exact, and a subtraction is the exact difference rounded to
  the nearest double (\<open>double_minus\<close> below).
\<close>

subsection \<open>Records of the client\<close>

record markData =
  mark_id :: string
  mark_cfiRange :: string
  mark_text :: string
  name :: string
  markText :: string
  mark_timestamp :: nat
  mark_createdAt :: string

record noteData =
  note_id :: string
  note_text :: string
  note_cfiRange :: string
  color :: string
  note_type :: string
  markId :: "string option"
  noteText :: string
  note_timestamp :: nat
  note_createdAt :: string

text \<open>\<open>rendition.book.locations\<close>: the number of generated locations and the resolver.\<close>

record locations =
  locations_total :: nat
  percentageFromCfi :: "string \<Rightarrow> rat option"

record renditionObj =
  book :: "locations option"

text \<open>\<open>currentSelection\<close>: the selected range and its text (the DOM contents are left out).\<close>

record selection =
  sel_cfiRange :: string
  sel_text :: string

record app =
  rendition :: "renditionObj option"
  currentSelection :: "selection option"
  currentColor :: string
  marks :: "markData list"
  "notes" :: "noteData list"
  expandedMarks :: "string set"

text \<open>The readings of the clock a creating handler makes: \<open>Date.now()\<close> for the id, \<open>Date.now()\<close>
  for the timestamp and \<open>new Date().toISOString()\<close>.\<close>

record clock =
  now_id :: nat
  now_timestamp :: nat
  now_iso :: string

subsection \<open>Numbers\<close>

text \<open>Decimal digits of a number, for the template strings \<open>mark-${Date.now()}\<close> and for the
  JSON text of a timestamp (timestamps are below \<open>10^21\<close>, where JavaScript prints all
  digits).\<close>

function toString :: "nat \<Rightarrow> string" where
  "toString n =
     (if n < 10 then [char_of (48 + n)]
      else toString (n div 10) @ [char_of (48 + n mod 10)])"
  by pat_completeness auto
termination
  by (relation "measure (\<lambda>n. n)") auto

declare toString.simps [simp del]

text \<open>The subtraction of two numbers is the IEEE 754 double subtraction: the exact
  difference, rounded to 53 significant bits, ties to the even significand. \<open>roundEven\<close>
  rounds to an integer; \<open>round53\<close> scales a positive number into the range from \<open>2^52\<close> to
  \<open>2^53\<close>, where the doubles are the integers, rounds it there and scales back. Positions
  lie between 0 and 1, so no difference overflows, and a difference of two doubles that
  is below the normal range is a double itself and is not rounded.\<close>

definition roundEven :: "rat \<Rightarrow> int" where
  "roundEven x =
     (let f = \<lfloor>x\<rfloor>; d = x - of_int f
      in if d < 1 / 2 then f else if 1 / 2 < d then f + 1 else if even f then f else f + 1)"

function halve53 :: "rat \<Rightarrow> rat" where
  "halve53 x = (if 2 ^ 53 \<le> x then 2 * halve53 (x / 2) else of_int (roundEven x))"
  by pat_completeness auto
termination
proof (relation "measure (\<lambda>x. nat \<lfloor>x\<rfloor>)")
  show "wf (measure (\<lambda>x::rat. nat \<lfloor>x\<rfloor>))" by simp
next
  fix x :: rat
  assume big: "2 ^ 53 \<le> x"
  then have one: "1 \<le> x" by (rule order_trans [rotated]) simp
  then have pos: "1 \<le> \<lfloor>x\<rfloor>" by (simp add: le_floor_iff)
  have "x < of_int \<lfloor>x\<rfloor> + 1" by linarith
  with pos have "x / 2 < of_int \<lfloor>x\<rfloor>" by linarith
  then have "\<lfloor>x / 2\<rfloor> < \<lfloor>x\<rfloor>" by (simp add: floor_less_iff)
  with pos show "(x / 2, x) \<in> measure (\<lambda>x. nat \<lfloor>x\<rfloor>)" by simp
qed

function round53 :: "rat \<Rightarrow> rat" where
  "round53 x = (if 0 < x \<and> x < 2 ^ 52 then round53 (2 * x) / 2 else halve53 x)"
  by pat_completeness auto
termination
proof (relation "measure (\<lambda>x. nat \<lfloor>2 ^ 52 / x\<rfloor>)")
  show "wf (measure (\<lambda>x::rat. nat \<lfloor>2 ^ 52 / x\<rfloor>))" by simp
next
  fix x :: rat
  assume "0 < x \<and> x < 2 ^ 52"
  then have x: "0 < x" "x < 2 ^ 52" by simp_all
  define z where "z = 2 ^ 52 / x"
  from x have one: "1 \<le> z" by (simp add: z_def)
  then have pos: "1 \<le> \<lfloor>z\<rfloor>" by (simp add: le_floor_iff)
  have "z < of_int \<lfloor>z\<rfloor> + 1" by linarith
  with pos have "z / 2 < of_int \<lfloor>z\<rfloor>" by linarith
  then have "\<lfloor>z / 2\<rfloor> < \<lfloor>z\<rfloor>" by (simp add: floor_less_iff)
  moreover have "2 ^ 52 / (2 * x) = z / 2" by (simp add: z_def)
  ultimately show "(2 * x, x) \<in> measure (\<lambda>x. nat \<lfloor>2 ^ 52 / x\<rfloor>)"
    using pos by (simp add: z_def)
qed

declare halve53.simps [simp del] round53.simps [simp del]

definition toDouble :: "rat \<Rightarrow> rat" where
  "toDouble x = (if x < 0 then - round53 (- x) else round53 x)"

definition double_minus :: "rat \<Rightarrow> rat \<Rightarrow> rat" where
  "double_minus a b = toDouble (a - b)"

subsection \<open>Requests and the server's files\<close>

datatype request =
    SaveMark markData
  | UpdateMarks "markData list"
  | SaveNote noteData
  | UpdateNotes "noteData list"

text \<open>The body of a request is the text \<open>JSON.stringify\<close> makes of the record or of the
  object holding the array, sent as UTF-8; a \<open>string\<close> is the sequence of its bytes.
  \<open>jsonChar\<close> is the escaping of one byte inside a JSON string.\<close>

definition hexDigit :: "nat \<Rightarrow> char" where
  "hexDigit d = (if d < 10 then char_of (48 + d) else char_of (87 + d))"

definition jsonChar :: "char \<Rightarrow> string" where
  "jsonChar c =
     (if c = CHR 0x22 then [CHR 0x5C, CHR 0x22]
      else if c = CHR 0x5C then [CHR 0x5C, CHR 0x5C]
      else if c = CHR 0x08 then [CHR 0x5C, CHR ''b'']
      else if c = CHR 0x0C then [CHR 0x5C, CHR ''f'']
      else if c = CHR 0x0A then [CHR 0x5C, CHR ''n'']
      else if c = CHR 0x0D then [CHR 0x5C, CHR ''r'']
      else if c = CHR 0x09 then [CHR 0x5C, CHR ''t'']
      else if (of_char c :: nat) < 32 then
        [CHR 0x5C, CHR ''u'', CHR ''0'', CHR ''0'',
         hexDigit ((of_char c :: nat) div 16), hexDigit ((of_char c :: nat) mod 16)]
      else [c])"

definition jsonString :: "string \<Rightarrow> string" where
  "jsonString s = CHR 0x22 # concat (map jsonChar s) @ [CHR 0x22]"

definition jsonMember :: "string \<Rightarrow> string \<Rightarrow> string" where
  "jsonMember k v = jsonString k @ '':'' @ v"

fun joinComma :: "string list \<Rightarrow> string" where
  "joinComma [] = []"
| "joinComma [x] = x"
| "joinComma (x # y # zs) = x @ '','' @ joinComma (y # zs)"

definition jsonObject :: "string list \<Rightarrow> string" where
  "jsonObject members = ''{'' @ joinComma members @ ''}''"

definition jsonArray :: "string list \<Rightarrow> string" where
  "jsonArray elements = ''['' @ joinComma elements @ '']''"

definition jsonMark :: "markData \<Rightarrow> string" where
  "jsonMark m =
     jsonObject
       [jsonMember ''id'' (jsonString (mark_id m)),
        jsonMember ''cfiRange'' (jsonString (mark_cfiRange m)),
        jsonMember ''text'' (jsonString (mark_text m)),
        jsonMember ''name'' (jsonString (name m)),
        jsonMember ''markText'' (jsonString (markText m)),
        jsonMember ''timestamp'' (toString (mark_timestamp m)),
        jsonMember ''createdAt'' (jsonString (mark_createdAt m))]"

definition jsonNote :: "noteData \<Rightarrow> string" where
  "jsonNote n =
     jsonObject
       [jsonMember ''id'' (jsonString (note_id n)),
        jsonMember ''text'' (jsonString (note_text n)),
        jsonMember ''cfiRange'' (jsonString (note_cfiRange n)),
        jsonMember ''color'' (jsonString (color n)),
        jsonMember ''type'' (jsonString (note_type n)),
        jsonMember ''markId'' (case markId n of None \<Rightarrow> ''null'' | Some i \<Rightarrow> jsonString i),
        jsonMember ''noteText'' (jsonString (noteText n)),
        jsonMember ''timestamp'' (toString (note_timestamp n)),
        jsonMember ''createdAt'' (jsonString (note_createdAt n))]"

fun requestBody :: "request \<Rightarrow> string" where
  "requestBody (SaveMark m) = jsonMark m"
| "requestBody (UpdateMarks ms) = jsonObject [jsonMember ''marks'' (jsonArray (map jsonMark ms))]"
| "requestBody (SaveNote n) = jsonNote n"
| "requestBody (UpdateNotes ns) = jsonObject [jsonMember ''notes'' (jsonArray (map jsonNote ns))]"

text \<open>\<open>app.use(express.json())\<close> with no options: a body of more than 100kb, 102400 bytes,
  is answered with status 413 before the route runs; the client does not look at the
  status.\<close>

definition bodyLimit :: nat where
  "bodyLimit = 102400"

definition bodyAccepted :: "request \<Rightarrow> bool" where
  "bodyAccepted r = (length (requestBody r) \<le> bodyLimit)"

text \<open>\<open>data/marks.json\<close> and \<open>data/notes.json\<close>; \<open>None\<close> is a file that cannot be read. The
  files hold JSON arrays of the records; \<open>JSON.parse\<close> is taken to return the array that
  \<open>JSON.stringify\<close> was given, and \<open>fs.writeFile\<close> to succeed.\<close>

record files =
  marksFile :: "markData list option"
  notesFile :: "noteData list option"

text \<open>POST \<open>/api/save-mark\<close>: when the body is accepted, read the stored array (empty when
  the file cannot be read), push the record, write the array back.\<close>

definition save_mark :: "markData \<Rightarrow> files \<Rightarrow> files" where
  "save_mark markData fs =
     (if bodyAccepted (SaveMark markData) then
        (let marks0 = (case marksFile fs of None \<Rightarrow> [] | Some existingData \<Rightarrow> existingData)
         in fs\<lparr>marksFile := Some (marks0 @ [markData])\<rparr>)
      else fs)"

text \<open>GET \<open>/api/load-marks\<close>: the \<open>data\<close> field of the response.\<close>

definition load_marks :: "files \<Rightarrow> markData list" where
  "load_marks fs = (case marksFile fs of None \<Rightarrow> [] | Some ms \<Rightarrow> ms)"

text \<open>POST \<open>/api/update-marks\<close>: when the body is accepted, write the array of the request
  body.\<close>

definition update_marks :: "markData list \<Rightarrow> files \<Rightarrow> files" where
  "update_marks ms fs =
     (if bodyAccepted (UpdateMarks ms) then fs\<lparr>marksFile := Some ms\<rparr> else fs)"

definition save_note :: "noteData \<Rightarrow> files \<Rightarrow> files" where
  "save_note noteData fs =
     (if bodyAccepted (SaveNote noteData) then
        (let notes0 = (case notesFile fs of None \<Rightarrow> [] | Some existingData \<Rightarrow> existingData)
         in fs\<lparr>notesFile := Some (notes0 @ [noteData])\<rparr>)
      else fs)"

definition load_notes :: "files \<Rightarrow> noteData list" where
  "load_notes fs = (case notesFile fs of None \<Rightarrow> [] | Some ns \<Rightarrow> ns)"

definition update_notes :: "noteData list \<Rightarrow> files \<Rightarrow> files" where
  "update_notes ns fs =
     (if bodyAccepted (UpdateNotes ns) then fs\<lparr>notesFile := Some ns\<rparr> else fs)"

fun handle :: "request \<Rightarrow> files \<Rightarrow> files" where
  "handle (SaveMark m) fs = save_mark m fs"
| "handle (UpdateMarks ms) fs = update_marks ms fs"
| "handle (SaveNote n) fs = save_note n fs"
| "handle (UpdateNotes ns) fs = update_notes ns fs"

text \<open>The requests of one handler reach the server in the order they were sent.\<close>

definition deliver :: "request list \<Rightarrow> files \<Rightarrow> files" where
  "deliver rs fs = fold handle rs fs"

text \<open>\<open>loadMarks\<close> and \<open>loadNotes\<close> of the client: the response has \<open>success: true\<close> and an
  array, which is truthy also when empty, so the state is always replaced.\<close>

definition loadMarks :: "files \<Rightarrow> app \<Rightarrow> app" where
  "loadMarks fs s = s\<lparr>marks := load_marks fs\<rparr>"

definition loadNotes :: "files \<Rightarrow> app \<Rightarrow> app" where
  "loadNotes fs s = s\<lparr>notes := load_notes fs\<rparr>"

subsection \<open>Handlers of the client\<close>

text \<open>What a handler reports: \<open>Done\<close> when it ran through, \<open>Ignored\<close> when its guard was
  false and it only logged, \<open>NoPrecedingMark\<close> for the alert asking for a mark first,
  \<open>NotFound\<close> for the log \<open>Note not found\<close>.\<close>

datatype outcome = Done | Ignored | NoPrecedingMark | NotFound

text \<open>The loop of \<open>findParentMark\<close> over \<open>marks\<close>, with its two variables \<open>parentMark\<close> and
  \<open>closestDistance\<close>; \<open>None\<close> is the initial \<open>Infinity\<close>.\<close>

fun findParentMark_loop ::
  "(string \<Rightarrow> rat option) \<Rightarrow> rat \<Rightarrow> markData list \<Rightarrow> markData option \<Rightarrow> rat option
     \<Rightarrow> markData option" where
  "findParentMark_loop pct notePosition [] parentMark closestDistance = parentMark"
| "findParentMark_loop pct notePosition (mark # rest) parentMark closestDistance =
     (case pct (mark_cfiRange mark) of
        None \<Rightarrow> findParentMark_loop pct notePosition rest parentMark closestDistance
      | Some markPosition \<Rightarrow>
          if markPosition \<le> notePosition then
            (let distance = double_minus notePosition markPosition in
             if (case closestDistance of None \<Rightarrow> True | Some c \<Rightarrow> distance < c)
             then findParentMark_loop pct notePosition rest (Some mark) (Some distance)
             else findParentMark_loop pct notePosition rest parentMark closestDistance)
          else findParentMark_loop pct notePosition rest parentMark closestDistance)"

definition findParentMark :: "app \<Rightarrow> string \<Rightarrow> markData option" where
  "findParentMark s noteCfiRange =
     (case rendition s of
        None \<Rightarrow> None
      | Some r \<Rightarrow>
          (case book r of
             None \<Rightarrow> None
           | Some loc \<Rightarrow>
               if locations_total loc = 0 then None
               else
                 (case percentageFromCfi loc noteCfiRange of
                    None \<Rightarrow> None
                  | Some notePosition \<Rightarrow>
                      findParentMark_loop (percentageFromCfi loc) notePosition (marks s)
                        None None)))"

definition addMark :: "clock \<Rightarrow> app \<Rightarrow> outcome \<times> app \<times> request list" where
  "addMark clk s =
     (case currentSelection s of
        None \<Rightarrow> (Ignored, s, [])
      | Some sel \<Rightarrow>
          (case rendition s of
             None \<Rightarrow> (Ignored, s, [])
           | Some r \<Rightarrow>
               (let episodeNumber = length (marks s) + 1;
                    markData = \<lparr> mark_id = ''mark-'' @ toString (now_id clk),
                                 mark_cfiRange = sel_cfiRange sel,
                                 mark_text = sel_text sel,
                                 name = ''Episode '' @ toString episodeNumber,
                                 markText = [],
                                 mark_timestamp = now_timestamp clk,
                                 mark_createdAt = now_iso clk \<rparr>
                in (Done,
                    s\<lparr>marks := marks s @ [markData], currentSelection := None\<rparr>,
                    [SaveMark markData]))))"

definition saveMarkName :: "string \<Rightarrow> string \<Rightarrow> app \<Rightarrow> outcome \<times> app \<times> request list" where
  "saveMarkName markId' newName s =
     (let updatedMarks =
            map (\<lambda>mark. if mark_id mark = markId' then mark\<lparr>name := newName\<rparr> else mark)
              (marks s)
      in (Done, s\<lparr>marks := updatedMarks\<rparr>, [UpdateMarks updatedMarks]))"

definition saveNoteText :: "string \<Rightarrow> string \<Rightarrow> app \<Rightarrow> outcome \<times> app \<times> request list" where
  "saveNoteText noteId newNoteText s =
     (let updatedNotes =
            map (\<lambda>note. if note_id note = noteId then note\<lparr>noteText := newNoteText\<rparr> else note)
              (notes s)
      in (Done, s\<lparr>notes := updatedNotes\<rparr>, [UpdateNotes updatedNotes]))"

definition saveMarkText :: "string \<Rightarrow> string \<Rightarrow> app \<Rightarrow> outcome \<times> app \<times> request list" where
  "saveMarkText markId' newMarkText s =
     (let updatedMarks =
            map (\<lambda>mark. if mark_id mark = markId' then mark\<lparr>markText := newMarkText\<rparr> else mark)
              (marks s)
      in (Done, s\<lparr>marks := updatedMarks\<rparr>, [UpdateMarks updatedMarks]))"

definition deleteNote :: "string \<Rightarrow> app \<Rightarrow> outcome \<times> app \<times> request list" where
  "deleteNote noteId s =
     (case find (\<lambda>note. note_id note = noteId) (notes s) of
        None \<Rightarrow> (NotFound, s, [])
      | Some noteToDelete \<Rightarrow>
          (let updatedNotes = filter (\<lambda>note. note_id note \<noteq> noteId) (notes s)
           in (Done, s\<lparr>notes := updatedNotes\<rparr>, [UpdateNotes updatedNotes])))"

text \<open>\<open>deleteMarkWithReassignment\<close>. The call \<open>findParentMark(note.cfiRange)\<close> reads the
  \<open>marks\<close> of the render the handler belongs to, that is \<open>marks s\<close>: \<open>setMarks\<close> is called
  after the notes have been mapped and does not change the array the closure holds.\<close>

definition deleteMarkWithReassignment ::
  "string \<Rightarrow> app \<Rightarrow> outcome \<times> app \<times> request list" where
  "deleteMarkWithReassignment markId' s =
     (let updatedNotes =
            map (\<lambda>note.
                   if markId note = Some markId' then
                     (let newParentMark = findParentMark s (note_cfiRange note)
                      in note\<lparr>markId :=
                                (case newParentMark of
                                   Some m \<Rightarrow> Some (mark_id m)
                                 | None \<Rightarrow> None)\<rparr>)
                   else note)
              (notes s);
          updatedMarks = filter (\<lambda>mark. mark_id mark \<noteq> markId') (marks s)
      in (Done,
          s\<lparr>marks := updatedMarks, notes := updatedNotes\<rparr>,
          [UpdateMarks updatedMarks, UpdateNotes updatedNotes]))"

definition addHighlight :: "clock \<Rightarrow> app \<Rightarrow> outcome \<times> app \<times> request list" where
  "addHighlight clk s =
     (case currentSelection s of
        None \<Rightarrow> (Ignored, s, [])
      | Some sel \<Rightarrow>
          (case rendition s of
             None \<Rightarrow> (Ignored, s, [])
           | Some r \<Rightarrow>
               (case findParentMark s (sel_cfiRange sel) of
                  None \<Rightarrow> (NoPrecedingMark, s, [])
                | Some parentMark \<Rightarrow>
                    (let noteId = ''note-'' @ toString (now_id clk);
                         noteData = \<lparr> note_id = noteId,
                                      note_text = sel_text sel,
                                      note_cfiRange = sel_cfiRange sel,
                                      color = currentColor s,
                                      note_type = ''highlight'',
                                      markId = Some (mark_id parentMark),
                                      noteText = [],
                                      note_timestamp = now_timestamp clk,
                                      note_createdAt = now_iso clk \<rparr>
                     in (Done,
                         s\<lparr>notes := notes s @ [noteData],
                           expandedMarks := insert (mark_id parentMark) (expandedMarks s),
                           currentSelection := None\<rparr>,
                         [SaveNote noteData])))))"

definition undoLastHighlight :: "app \<Rightarrow> outcome \<times> app \<times> request list" where
  "undoLastHighlight s =
     (if length (notes s) > 0 then
        (let updatedNotes = take (length (notes s) - 1) (notes s)
         in (Done, s\<lparr>notes := updatedNotes\<rparr>, [UpdateNotes updatedNotes]))
      else (Ignored, s, []))"

definition applyFormatting :: "string \<Rightarrow> clock \<Rightarrow> app \<Rightarrow> outcome \<times> app \<times> request list" where
  "applyFormatting formatType clk s =
     (case currentSelection s of
        None \<Rightarrow> (Ignored, s, [])
      | Some sel \<Rightarrow>
          (case rendition s of
             None \<Rightarrow> (Ignored, s, [])
           | Some r \<Rightarrow>
               (case findParentMark s (sel_cfiRange sel) of
                  None \<Rightarrow> (NoPrecedingMark, s, [])
                | Some parentMark \<Rightarrow>
                    (let noteId = ''note-'' @ toString (now_id clk);
                         noteData = \<lparr> note_id = noteId,
                                      note_text = sel_text sel,
                                      note_cfiRange = sel_cfiRange sel,
                                      color = currentColor s,
                                      note_type = formatType,
                                      markId = Some (mark_id parentMark),
                                      noteText = [],
                                      note_timestamp = now_timestamp clk,
                                      note_createdAt = now_iso clk \<rparr>
                     in (Done,
                         s\<lparr>notes := notes s @ [noteData],
                           expandedMarks := insert (mark_id parentMark) (expandedMarks s),
                           currentSelection := None\<rparr>,
                         [SaveNote noteData])))))"

subsection \<open>The dispatch of the user's commands\<close>

text \<open>The buttons and inputs of the component call one handler each.\<close>

datatype command =
    AddMark clock
  | AddHighlight clock
  | ApplyFormatting string clock
  | SaveMarkName string string
  | SaveMarkText string string
  | SaveNoteText string string
  | DeleteNote string
  | DeleteMark string
  | Undo

fun exec :: "command \<Rightarrow> app \<Rightarrow> outcome \<times> app \<times> request list" where
  "exec (AddMark clk) s = addMark clk s"
| "exec (AddHighlight clk) s = addHighlight clk s"
| "exec (ApplyFormatting formatType clk) s = applyFormatting formatType clk s"
| "exec (SaveMarkName i v) s = saveMarkName i v s"
| "exec (SaveMarkText i v) s = saveMarkText i v s"
| "exec (SaveNoteText i v) s = saveNoteText i v s"
| "exec (DeleteNote i) s = deleteNote i s"
| "exec (DeleteMark i) s = deleteMarkWithReassignment i s"
| "exec Undo s = undoLastHighlight s"

subsection \<open>The sorted list of marks\<close>

text \<open>\<open>Array.prototype.sort\<close> with a comparator is stable; with a comparator that is
  consistent it returns the list built by inserting each element, from the last to the
  first, before the first element it does not compare greater than.\<close>

fun sort_insert :: "('a \<Rightarrow> 'a \<Rightarrow> rat) \<Rightarrow> 'a \<Rightarrow> 'a list \<Rightarrow> 'a list" where
  "sort_insert cmp x [] = [x]"
| "sort_insert cmp x (y # ys) =
     (if cmp x y \<le> 0 then x # y # ys else y # sort_insert cmp x ys)"

definition js_sort :: "('a \<Rightarrow> 'a \<Rightarrow> rat) \<Rightarrow> 'a list \<Rightarrow> 'a list" where
  "js_sort cmp xs = foldr (sort_insert cmp) xs []"

text \<open>\<open>x || 0\<close> for a number or \<open>null\<close>.\<close>

definition orZero :: "rat option \<Rightarrow> rat" where
  "orZero x = (case x of None \<Rightarrow> 0 | Some v \<Rightarrow> if v = 0 then 0 else v)"

text \<open>The comparator of \<open>marks.sort\<close> in the mark list of the side panel. (The call sorts
  the array of the state in place; \<open>sortedMarks\<close> below is the order it produces. The sort
  uses only the sign of the difference, which rounding does not change, so the difference
  is written exactly.)\<close>

definition markCompare :: "app \<Rightarrow> markData \<Rightarrow> markData \<Rightarrow> rat" where
  "markCompare s a b =
     (let byTime = of_nat (mark_timestamp a) - of_nat (mark_timestamp b) in
      case rendition s of
        None \<Rightarrow> byTime
      | Some r \<Rightarrow>
          (case book r of
             None \<Rightarrow> byTime
           | Some loc \<Rightarrow>
               if locations_total loc > 0 then
                 (let percentageA = orZero (percentageFromCfi loc (mark_cfiRange a));
                      percentageB = orZero (percentageFromCfi loc (mark_cfiRange b))
                  in percentageA - percentageB)
               else byTime))"

definition sortedMarks :: "app \<Rightarrow> markData list" where
  "sortedMarks s = js_sort (markCompare s) (marks s)"

subsection \<open>Resolved positions\<close>

text \<open>The position a handler obtains for a CFI: none while the locations are not
  generated (the guard of \<open>findParentMark\<close> and of the comparator), otherwise what
  \<open>percentageFromCfi\<close> returns.\<close>

definition locationsReady :: "app \<Rightarrow> bool" where
  "locationsReady s =
     (case rendition s of
        None \<Rightarrow> False
      | Some r \<Rightarrow> (case book r of None \<Rightarrow> False | Some loc \<Rightarrow> locations_total loc > 0))"

definition resolve :: "app \<Rightarrow> string \<Rightarrow> rat option" where
  "resolve s cfi =
     (case rendition s of
        None \<Rightarrow> None
      | Some r \<Rightarrow>
          (case book r of
             None \<Rightarrow> None
           | Some loc \<Rightarrow>
               if locations_total loc = 0 then None else percentageFromCfi loc cfi))"

text \<open>The commands that create a record.\<close>

fun creates :: "command \<Rightarrow> bool" where
  "creates (AddMark clk) = True"
| "creates (AddHighlight clk) = True"
| "creates (ApplyFormatting formatType clk) = True"
| "creates c = False"

subsection \<open>Example states\<close>

text \<open>A book whose locations are generated: two places for marks, at 0.1 and 0.5, three
  places for selections, at 0.05, 0.3 and 0.6, and no position for any other CFI.\<close>

definition example_locations :: locations where
  "example_locations =
     \<lparr> locations_total = 100,
       percentageFromCfi =
         (\<lambda>c. if c = ''cfi-m1'' then Some (1 / 10)
              else if c = ''cfi-m2'' then Some (1 / 2)
              else if c = ''cfi-early'' then Some (1 / 20)
              else if c = ''cfi-n0'' then Some (3 / 10)
              else if c = ''cfi-n'' then Some (3 / 5)
              else None) \<rparr>"

definition mark_M1 :: markData where
  "mark_M1 = \<lparr> mark_id = ''mark-1'', mark_cfiRange = ''cfi-m1'', mark_text = ''one'',
               name = ''Episode 1'', markText = [], mark_timestamp = 1,
               mark_createdAt = ''t1'' \<rparr>"

definition mark_M2 :: markData where
  "mark_M2 = \<lparr> mark_id = ''mark-2'', mark_cfiRange = ''cfi-m2'', mark_text = ''two'',
               name = ''Episode 2'', markText = [], mark_timestamp = 2,
               mark_createdAt = ''t2'' \<rparr>"

text \<open>A mark whose CFI has no position.\<close>

definition mark_U :: markData where
  "mark_U = \<lparr> mark_id = ''mark-3'', mark_cfiRange = ''cfi-x'', mark_text = ''three'',
              name = ''Episode 3'', markText = [], mark_timestamp = 3,
              mark_createdAt = ''t3'' \<rparr>"

text \<open>Notes at 0.3 under the first mark, at 0.6 under the second, and at 0.6 under the
  first.\<close>

definition note_N0 :: noteData where
  "note_N0 = \<lparr> note_id = ''note-0'', note_text = ''a'', note_cfiRange = ''cfi-n0'',
               color = ''#fbdda7'', note_type = ''highlight'', markId = Some ''mark-1'',
               noteText = [], note_timestamp = 4, note_createdAt = ''t4'' \<rparr>"

definition note_N :: noteData where
  "note_N = \<lparr> note_id = ''note-1'', note_text = ''b'', note_cfiRange = ''cfi-n'',
              color = ''#fbdda7'', note_type = ''highlight'', markId = Some ''mark-2'',
              noteText = [], note_timestamp = 5, note_createdAt = ''t5'' \<rparr>"

definition note_P :: noteData where
  "note_P = \<lparr> note_id = ''note-2'', note_text = ''c'', note_cfiRange = ''cfi-n'',
              color = ''#fbdda7'', note_type = ''underline'', markId = Some ''mark-1'',
              noteText = [], note_timestamp = 6, note_createdAt = ''t6'' \<rparr>"

definition example_app :: "markData list \<Rightarrow> noteData list \<Rightarrow> app" where
  "example_app ms ns =
     \<lparr> rendition = Some \<lparr> book = Some example_locations \<rparr>,
       currentSelection = None, currentColor = ''#9aa4ca'',
       marks = ms, notes = ns, expandedMarks = {} \<rparr>"

definition example_selected :: "string \<Rightarrow> markData list \<Rightarrow> noteData list \<Rightarrow> app" where
  "example_selected c ms ns =
     (example_app ms ns)\<lparr>currentSelection := Some \<lparr> sel_cfiRange = c, sel_text = ''xyz'' \<rparr>\<rparr>"

definition example_clock :: clock where
  "example_clock = \<lparr> now_id = 42, now_timestamp = 43, now_iso = ''t43'' \<rparr>"

definition example_files :: "markData list \<Rightarrow> noteData list \<Rightarrow> files" where
  "example_files ms ns = \<lparr> marksFile = Some ms, notesFile = Some ns \<rparr>"





text \<open>A mark whose selected text has 102400 characters.\<close>

definition mark_big :: markData where
  "mark_big = mark_M1\<lparr>mark_text := replicate 102400 (CHR ''a'')\<rparr>"

text \<open>The mark that \<open>addMark\<close> builds at \<open>example_clock\<close> for a selection at 0.6 when one
  mark exists.\<close>

definition mark_new :: markData where
  "mark_new = \<lparr> mark_id = ''mark-42'', mark_cfiRange = ''cfi-n'', mark_text = ''xyz'',
                name = ''Episode 2'', markText = [], mark_timestamp = 43,
                mark_createdAt = ''t43'' \<rparr>"

lemmas example_defs =
  example_locations_def mark_M1_def mark_M2_def mark_U_def note_N0_def note_N_def note_P_def
  mark_new_def
  example_app_def example_selected_def example_clock_def example_files_def

section \<open>Properties\<close>

subsection \<open>Lists\<close>

lemma find_first_decomp:
  "find P xs = Some m \<Longrightarrow> \<exists>ys zs. xs = ys @ m # zs \<and> P m \<and> (\<forall>y\<in>set ys. \<not> P y)"
proof (induction xs)
  case Nil
  then show ?case by simp
next
  case (Cons x xs)
  show ?case
  proof (cases "P x")
    case True
    with Cons.prems have "x = m" by simp
    with True have "x # xs = [] @ m # xs \<and> P m \<and> (\<forall>y\<in>set []. \<not> P y)" by simp
    then show ?thesis by blast
  next
    case False
    with Cons obtain ys zs where "xs = ys @ m # zs" "P m" "\<forall>y\<in>set ys. \<not> P y" by auto
    with False have "x # xs = (x # ys) @ m # zs \<and> P m \<and> (\<forall>y\<in>set (x # ys). \<not> P y)" by simp
    then show ?thesis by blast
  qed
qed

lemma filter_distinct_remove:
  assumes "distinct (map f xs)" and "k \<in> f ` set xs"
  shows "\<exists>ys n zs. xs = ys @ n # zs \<and> f n = k \<and> filter (\<lambda>x. f x \<noteq> k) xs = ys @ zs"
proof -
  from assms(2) obtain n where n: "n \<in> set xs" "f n = k" by auto
  then obtain ys zs where xs: "xs = ys @ n # zs" by (auto simp: in_set_conv_decomp)
  from assms(1) xs have "f n \<notin> f ` set ys" "f n \<notin> f ` set zs"
    by auto
  with n have "\<forall>y\<in>set ys. f y \<noteq> k" "\<forall>z\<in>set zs. f z \<noteq> k"
    by blast+
  then have "filter (\<lambda>x. f x \<noteq> k) xs = ys @ zs"
    using xs n by simp
  with xs n show ?thesis by blast
qed

lemma take_all_but_last: "take (length xs - Suc 0) xs = butlast xs"
  by (simp add: butlast_conv_take)

subsection \<open>Evaluating numbers and request bodies\<close>

lemma floor_numeral_div:
  "\<lfloor>numeral a / numeral b :: rat\<rfloor> = numeral a div numeral b"
  using floor_divide_of_int_eq [of "numeral a" "numeral b", where ?'a = rat] by simp

lemmas double_eval =
  double_minus_def toDouble_def round53.simps halve53.simps roundEven_def Let_def
  floor_numeral_div

lemma digit_chars:
  "char_of (48 :: nat) = CHR ''0''" "char_of (49 :: nat) = CHR ''1''"
  "char_of (50 :: nat) = CHR ''2''" "char_of (51 :: nat) = CHR ''3''"
  "char_of (52 :: nat) = CHR ''4''" "char_of (53 :: nat) = CHR ''5''"
  "char_of (54 :: nat) = CHR ''6''" "char_of (55 :: nat) = CHR ''7''"
  "char_of (56 :: nat) = CHR ''8''" "char_of (57 :: nat) = CHR ''9''"
  by code_simp+

lemmas json_defs =
  jsonMark_def jsonNote_def jsonObject_def jsonArray_def jsonMember_def jsonString_def
  jsonChar_def hexDigit_def bodyAccepted_def bodyLimit_def toString.simps digit_chars

lemma length_jsonChars: "length s \<le> length (concat (map jsonChar s))"
  by (induction s) (auto simp: jsonChar_def)

lemma body_longer_than_text: "length (mark_text m) < length (requestBody (UpdateMarks [m]))"
  using length_jsonChars [of "mark_text m"]
  by (simp add: jsonMark_def jsonObject_def jsonArray_def jsonMember_def jsonString_def)

text \<open>The distances of the example book: 0.6 - 0.5 rounds to the double nearest to 0.1,
  and 0.6 - 0.1 is 0.5.\<close>

lemma example_distances:
  "double_minus (3 / 5) (1 / 2) = 7205759403792794 / 72057594037927936"
  "double_minus (3 / 5) (1 / 10) = 1 / 2"
  by (simp_all add: double_eval)

text \<open>The distances of the book with the two marks near its start: both differences
  round to 0.5.\<close>

lemma tiny_distances:
  "double_minus (1 / 2) (1 / 2 ^ 70) = 1 / 2"
  "double_minus (1 / 2) (1 / 2 ^ 69) = 1 / 2"
  by (simp_all add: double_eval)

subsection \<open>The search for the parent mark\<close>

lemma loop_skip:
  assumes "\<not> (\<exists>qx. pct (mark_cfiRange x) = Some qx \<and> qx \<le> p \<and> double_minus p qx < c)"
  shows "findParentMark_loop pct p (x # xs) (Some a) (Some c) =
         findParentMark_loop pct p xs (Some a) (Some c)"
  using assms by (auto simp: Let_def split: option.splits)

lemma loop_take:
  assumes "pct (mark_cfiRange x) = Some qx" and "qx \<le> p" and "double_minus p qx < c"
  shows "findParentMark_loop pct p (x # xs) (Some a) (Some c) =
         findParentMark_loop pct p xs (Some x) (Some (double_minus p qx))"
  using assms by (simp add: Let_def)

text \<open>With a parent \<open>a\<close> at distance \<open>c\<close> in hand, the loop either keeps \<open>a\<close>, and then no
  qualifying mark of the rest is nearer than \<open>c\<close>, or returns the first mark of the rest
  at the least distance \<open>d\<close>, which is below \<open>c\<close>.\<close>

lemma loop_acc:
  "(findParentMark_loop pct p xs (Some a) (Some c) = Some a \<and>
      (\<forall>x\<in>set xs. \<forall>qx. pct (mark_cfiRange x) = Some qx \<longrightarrow> qx \<le> p
         \<longrightarrow> c \<le> double_minus p qx)) \<or>
   (\<exists>d m. d < c \<and>
      findParentMark_loop pct p xs (Some a) (Some c) = Some m \<and>
      find (\<lambda>x. case pct (mark_cfiRange x) of None \<Rightarrow> False
                | Some qx \<Rightarrow> qx \<le> p \<and> double_minus p qx = d) xs = Some m \<and>
      (\<forall>x\<in>set xs. \<forall>qx. pct (mark_cfiRange x) = Some qx \<longrightarrow> qx \<le> p
         \<longrightarrow> d \<le> double_minus p qx))"
proof (induction xs arbitrary: a c)
  case Nil
  show ?case by simp
next
  case (Cons x xs)
  show ?case
  proof (cases "\<exists>qx. pct (mark_cfiRange x) = Some qx \<and> qx \<le> p \<and> double_minus p qx < c")
    case False
    note eq = loop_skip [where pct = pct and x = x and p = p and c = c and xs = xs and a = a,
        OF False]
    from False have far:
      "\<And>qx. pct (mark_cfiRange x) = Some qx \<Longrightarrow> qx \<le> p \<Longrightarrow> c \<le> double_minus p qx"
      by (meson not_le_imp_less)
    from Cons.IH [of a c] show ?thesis
    proof (elim disjE exE conjE)
      assume "findParentMark_loop pct p xs (Some a) (Some c) = Some a"
        and "\<forall>x\<in>set xs. \<forall>qx. pct (mark_cfiRange x) = Some qx \<longrightarrow> qx \<le> p
               \<longrightarrow> c \<le> double_minus p qx"
      with eq far show ?thesis by simp
    next
      fix d m
      assume d: "d < c"
        and r: "findParentMark_loop pct p xs (Some a) (Some c) = Some m"
        and f: "find (\<lambda>x. case pct (mark_cfiRange x) of None \<Rightarrow> False
                       | Some qx \<Rightarrow> qx \<le> p \<and> double_minus p qx = d) xs = Some m"
        and mn: "\<forall>x\<in>set xs. \<forall>qx. pct (mark_cfiRange x) = Some qx \<longrightarrow> qx \<le> p
                   \<longrightarrow> d \<le> double_minus p qx"
      from far d have nx: "\<not> (case pct (mark_cfiRange x) of None \<Rightarrow> False
                              | Some qx \<Rightarrow> qx \<le> p \<and> double_minus p qx = d)"
        by (fastforce split: option.splits)
      from far d have lx:
        "\<And>qx. pct (mark_cfiRange x) = Some qx \<Longrightarrow> qx \<le> p \<Longrightarrow> d \<le> double_minus p qx"
        by fastforce
      have "d < c \<and>
            findParentMark_loop pct p (x # xs) (Some a) (Some c) = Some m \<and>
            find (\<lambda>x. case pct (mark_cfiRange x) of None \<Rightarrow> False
                      | Some qx \<Rightarrow> qx \<le> p \<and> double_minus p qx = d) (x # xs) = Some m \<and>
            (\<forall>y\<in>set (x # xs). \<forall>qx. pct (mark_cfiRange y) = Some qx \<longrightarrow> qx \<le> p
               \<longrightarrow> d \<le> double_minus p qx)"
        using d r f mn nx lx eq by simp
      then show ?thesis by blast
    qed
  next
    case True
    then obtain qx where qx: "pct (mark_cfiRange x) = Some qx" "qx \<le> p"
      "double_minus p qx < c"
      by blast
    note eq = loop_take [where pct = pct and x = x and p = p and c = c and xs = xs and a = a,
        OF qx]
    from Cons.IH [of x "double_minus p qx"] show ?thesis
    proof (elim disjE exE conjE)
      assume r: "findParentMark_loop pct p xs (Some x) (Some (double_minus p qx)) = Some x"
        and mn: "\<forall>y\<in>set xs. \<forall>q'. pct (mark_cfiRange y) = Some q' \<longrightarrow> q' \<le> p
                   \<longrightarrow> double_minus p qx \<le> double_minus p q'"
      have "double_minus p qx < c \<and>
            findParentMark_loop pct p (x # xs) (Some a) (Some c) = Some x \<and>
            find (\<lambda>x. case pct (mark_cfiRange x) of None \<Rightarrow> False
                      | Some q' \<Rightarrow> q' \<le> p \<and> double_minus p q' = double_minus p qx)
              (x # xs) = Some x \<and>
            (\<forall>y\<in>set (x # xs). \<forall>q'. pct (mark_cfiRange y) = Some q' \<longrightarrow> q' \<le> p
               \<longrightarrow> double_minus p qx \<le> double_minus p q')"
        using qx r mn eq by simp
      then show ?thesis by blast
    next
      fix d m
      assume d: "d < double_minus p qx"
        and r: "findParentMark_loop pct p xs (Some x) (Some (double_minus p qx)) = Some m"
        and f: "find (\<lambda>x. case pct (mark_cfiRange x) of None \<Rightarrow> False
                       | Some q' \<Rightarrow> q' \<le> p \<and> double_minus p q' = d) xs = Some m"
        and mn: "\<forall>y\<in>set xs. \<forall>q'. pct (mark_cfiRange y) = Some q' \<longrightarrow> q' \<le> p
                   \<longrightarrow> d \<le> double_minus p q'"
      have "d < c \<and>
            findParentMark_loop pct p (x # xs) (Some a) (Some c) = Some m \<and>
            find (\<lambda>x. case pct (mark_cfiRange x) of None \<Rightarrow> False
                      | Some q' \<Rightarrow> q' \<le> p \<and> double_minus p q' = d) (x # xs) = Some m \<and>
            (\<forall>y\<in>set (x # xs). \<forall>q'. pct (mark_cfiRange y) = Some q' \<longrightarrow> q' \<le> p
               \<longrightarrow> d \<le> double_minus p q')"
        using qx d r f mn eq by simp
      then show ?thesis by blast
    qed
  qed
qed

text \<open>From the start, the loop returns nothing when no mark qualifies, and otherwise the
  first mark in the list at the least distance among the qualifying marks.\<close>

lemma loop_start:
  "(findParentMark_loop pct p xs None None = None \<and>
      (\<forall>x\<in>set xs. \<forall>qx. pct (mark_cfiRange x) = Some qx \<longrightarrow> \<not> qx \<le> p)) \<or>
   (\<exists>d m.
      findParentMark_loop pct p xs None None = Some m \<and>
      find (\<lambda>x. case pct (mark_cfiRange x) of None \<Rightarrow> False
                | Some qx \<Rightarrow> qx \<le> p \<and> double_minus p qx = d) xs = Some m \<and>
      (\<forall>x\<in>set xs. \<forall>qx. pct (mark_cfiRange x) = Some qx \<longrightarrow> qx \<le> p
         \<longrightarrow> d \<le> double_minus p qx))"
proof (induction xs)
  case Nil
  show ?case by simp
next
  case (Cons x xs)
  show ?case
  proof (cases "\<exists>qx. pct (mark_cfiRange x) = Some qx \<and> qx \<le> p")
    case False
    then have eq: "findParentMark_loop pct p (x # xs) None None =
                   findParentMark_loop pct p xs None None"
      by (auto split: option.splits)
    from False have nq: "\<And>qx. pct (mark_cfiRange x) = Some qx \<Longrightarrow> \<not> qx \<le> p"
      by blast
    from Cons.IH show ?thesis
    proof (elim disjE exE conjE)
      assume "findParentMark_loop pct p xs None None = None"
        and "\<forall>x\<in>set xs. \<forall>qx. pct (mark_cfiRange x) = Some qx \<longrightarrow> \<not> qx \<le> p"
      with eq nq show ?thesis by simp
    next
      fix d m
      assume r: "findParentMark_loop pct p xs None None = Some m"
        and f: "find (\<lambda>x. case pct (mark_cfiRange x) of None \<Rightarrow> False
                       | Some qx \<Rightarrow> qx \<le> p \<and> double_minus p qx = d) xs = Some m"
        and mn: "\<forall>x\<in>set xs. \<forall>qx. pct (mark_cfiRange x) = Some qx \<longrightarrow> qx \<le> p
                   \<longrightarrow> d \<le> double_minus p qx"
      from nq have nx: "\<not> (case pct (mark_cfiRange x) of None \<Rightarrow> False
                           | Some qx \<Rightarrow> qx \<le> p \<and> double_minus p qx = d)"
        by (auto split: option.splits)
      have "findParentMark_loop pct p (x # xs) None None = Some m \<and>
            find (\<lambda>x. case pct (mark_cfiRange x) of None \<Rightarrow> False
                      | Some qx \<Rightarrow> qx \<le> p \<and> double_minus p qx = d) (x # xs) = Some m \<and>
            (\<forall>y\<in>set (x # xs). \<forall>qx. pct (mark_cfiRange y) = Some qx \<longrightarrow> qx \<le> p
               \<longrightarrow> d \<le> double_minus p qx)"
        using r f mn nx nq eq by simp
      then show ?thesis by blast
    qed
  next
    case True
    then obtain qx where qx: "pct (mark_cfiRange x) = Some qx" "qx \<le> p"
      by blast
    then have eq: "findParentMark_loop pct p (x # xs) None None =
                   findParentMark_loop pct p xs (Some x) (Some (double_minus p qx))"
      by (simp add: Let_def)
    from loop_acc [where pct = pct and p = p and xs = xs and a = x and c = "double_minus p qx"]
    show ?thesis
    proof (elim disjE exE conjE)
      assume r: "findParentMark_loop pct p xs (Some x) (Some (double_minus p qx)) = Some x"
        and mn: "\<forall>y\<in>set xs. \<forall>q'. pct (mark_cfiRange y) = Some q' \<longrightarrow> q' \<le> p
                   \<longrightarrow> double_minus p qx \<le> double_minus p q'"
      have "findParentMark_loop pct p (x # xs) None None = Some x \<and>
            find (\<lambda>x. case pct (mark_cfiRange x) of None \<Rightarrow> False
                      | Some q' \<Rightarrow> q' \<le> p \<and> double_minus p q' = double_minus p qx)
              (x # xs) = Some x \<and>
            (\<forall>y\<in>set (x # xs). \<forall>q'. pct (mark_cfiRange y) = Some q' \<longrightarrow> q' \<le> p
               \<longrightarrow> double_minus p qx \<le> double_minus p q')"
        using qx r mn eq by simp
      then show ?thesis by blast
    next
      fix d m
      assume d: "d < double_minus p qx"
        and r: "findParentMark_loop pct p xs (Some x) (Some (double_minus p qx)) = Some m"
        and f: "find (\<lambda>x. case pct (mark_cfiRange x) of None \<Rightarrow> False
                       | Some q' \<Rightarrow> q' \<le> p \<and> double_minus p q' = d) xs = Some m"
        and mn: "\<forall>y\<in>set xs. \<forall>q'. pct (mark_cfiRange y) = Some q' \<longrightarrow> q' \<le> p
                   \<longrightarrow> d \<le> double_minus p q'"
      have "findParentMark_loop pct p (x # xs) None None = Some m \<and>
            find (\<lambda>x. case pct (mark_cfiRange x) of None \<Rightarrow> False
                      | Some q' \<Rightarrow> q' \<le> p \<and> double_minus p q' = d) (x # xs) = Some m \<and>
            (\<forall>y\<in>set (x # xs). \<forall>q'. pct (mark_cfiRange y) = Some q' \<longrightarrow> q' \<le> p
               \<longrightarrow> d \<le> double_minus p q')"
        using qx d r f mn eq by simp
      then show ?thesis by blast
    qed
  qed
qed

lemma resolve_ready:
  "rendition s = Some r \<Longrightarrow> book r = Some loc \<Longrightarrow> locations_total loc \<noteq> 0 \<Longrightarrow>
   resolve s = percentageFromCfi loc"
  by (rule ext) (simp add: resolve_def)

lemma findParentMark_resolve:
  "findParentMark s c =
     (case resolve s c of
        None \<Rightarrow> None
      | Some p \<Rightarrow> findParentMark_loop (resolve s) p (marks s) None None)"
proof (cases "rendition s")
  case None
  then show ?thesis by (simp add: findParentMark_def resolve_def)
next
  case (Some r)
  show ?thesis
  proof (cases "book r")
    case None
    with Some show ?thesis by (simp add: findParentMark_def resolve_def)
  next
    case loc: (Some loc)
    show ?thesis
    proof (cases "locations_total loc = 0")
      case True
      with Some loc show ?thesis by (simp add: findParentMark_def resolve_def)
    next
      case False
      from resolve_ready [OF Some loc False] have eq: "resolve s = percentageFromCfi loc" .
      have "findParentMark s c =
         (case percentageFromCfi loc c of
            None \<Rightarrow> None
          | Some p \<Rightarrow> findParentMark_loop (percentageFromCfi loc) p (marks s) None None)"
        using Some loc False by (simp add: findParentMark_def)
      then show ?thesis unfolding eq .
    qed
  qed
qed


lemma findParentMark_None:
  assumes "resolve s c = None \<or>
           (\<exists>p. resolve s c = Some p \<and>
                (\<forall>m\<in>set (marks s). \<forall>q. resolve s (mark_cfiRange m) = Some q \<longrightarrow> \<not> q \<le> p))"
  shows "findParentMark s c = None"
proof (cases "resolve s c")
  case None
  then show ?thesis by (simp add: findParentMark_resolve)
next
  case (Some p)
  with assms have no: "\<forall>m\<in>set (marks s). \<forall>q. resolve s (mark_cfiRange m) = Some q \<longrightarrow> \<not> q \<le> p"
    by simp
  from loop_start [of "resolve s" p "marks s"]
  have "findParentMark_loop (resolve s) p (marks s) None None = None"
  proof (elim disjE exE conjE)
    fix d m
    assume "find (\<lambda>x. case resolve s (mark_cfiRange x) of None \<Rightarrow> False
                     | Some qx \<Rightarrow> qx \<le> p \<and> double_minus p qx = d) (marks s) = Some m"
    from find_first_decomp [OF this] no show ?thesis
      by (auto split: option.splits)
  qed
  with Some show ?thesis by (simp add: findParentMark_resolve)
qed


subsection \<open>Deleting a mark\<close>

text \<open>
  Claim C1, evaluated on the code. With marks M1 at 0.1 and M2 at 0.5 and a note at 0.6
  under M2, deleting M2 leaves the note under the id of M2: the search for the new parent
  runs over the marks of the state the handler started from, where M2 is still present
  and still the nearest mark before the note. With the single mark M1 and a note under
  it, deleting M1 leaves the note under the id of M1 and not without a parent.
\<close>

theorem delete_mark_keeps_deleted_parent:
  "fst (snd (deleteMarkWithReassignment ''mark-2'' (example_app [mark_M1, mark_M2] [note_N]))) =
     example_app [mark_M1] [note_N] \<and>
   markId note_N = Some ''mark-2'' \<and>
   fst (snd (deleteMarkWithReassignment ''mark-1'' (example_app [mark_M1] [note_P]))) =
     example_app [] [note_P] \<and>
   markId note_P = Some ''mark-1''"
  by (simp add: deleteMarkWithReassignment_def findParentMark_def Let_def example_defs
      example_distances)

text \<open>
  Claim C2, evaluated on the code. A state in which the only note refers to a mark of
  the mark collection is taken by the deletion of that mark to a state in which the note
  still carries the mark's id and no mark of the collection has it.
\<close>

theorem delete_mark_leaves_dangling_parent:
  "markId (hd (notes (example_app [mark_M1] [note_P]))) = Some ''mark-1'' \<and>
   ''mark-1'' \<in> mark_id ` set (marks (example_app [mark_M1] [note_P])) \<and>
   markId (hd (notes (fst (snd (exec (DeleteMark ''mark-1'')
      (example_app [mark_M1] [note_P])))))) = Some ''mark-1'' \<and>
   ''mark-1'' \<notin> mark_id ` set (marks (fst (snd (exec (DeleteMark ''mark-1'')
      (example_app [mark_M1] [note_P])))))"
  by (simp add: deleteMarkWithReassignment_def findParentMark_def Let_def example_defs
      example_distances)

text \<open>The deletion of a mark is the only command that can do so: a parent found by
  \<open>findParentMark\<close> is a mark of the collection, and every other command takes a state in
  which each note refers to a present mark, or to none, to such a state.\<close>

lemma findParentMark_in_marks:
  assumes "findParentMark s c = Some m"
  shows "m \<in> set (marks s)"
proof (cases "resolve s c")
  case None
  with assms show ?thesis by (simp add: findParentMark_resolve)
next
  case (Some p)
  with assms have r: "findParentMark_loop (resolve s) p (marks s) None None = Some m"
    by (simp add: findParentMark_resolve)
  from loop_start [of "resolve s" p "marks s"] r
  obtain d where "find (\<lambda>x. case resolve s (mark_cfiRange x) of None \<Rightarrow> False
                     | Some qx \<Rightarrow> qx \<le> p \<and> double_minus p qx = d) (marks s) = Some m"
    by auto
  from find_first_decomp [OF this] show ?thesis by auto
qed

lemma other_commands_keep_parents:
  assumes inv: "\<forall>n\<in>set (notes s). \<forall>i. markId n = Some i \<longrightarrow> i \<in> mark_id ` set (marks s)"
    and c: "\<forall>i. c \<noteq> DeleteMark i"
    and ex: "exec c s = (out, s', rs)"
  shows "\<forall>n\<in>set (notes s'). \<forall>i. markId n = Some i \<longrightarrow> i \<in> mark_id ` set (marks s')"
proof (cases c)
  case (AddMark clk)
  with ex inv show ?thesis
    by (auto simp: addMark_def Let_def split: option.splits)
next
  case (AddHighlight clk)
  with ex inv show ?thesis
    by (auto simp: addHighlight_def Let_def split: option.splits
        dest!: findParentMark_in_marks)
next
  case (ApplyFormatting formatType clk)
  with ex inv show ?thesis
    by (auto simp: applyFormatting_def Let_def split: option.splits
        dest!: findParentMark_in_marks)
next
  case (SaveMarkName i v)
  have "map mark_id (map (\<lambda>mark. if mark_id mark = i then mark\<lparr>name := v\<rparr> else mark)
          (marks s)) = map mark_id (marks s)"
    by (induction "marks s") simp_all
  then have "mark_id ` set (map (\<lambda>mark. if mark_id mark = i then mark\<lparr>name := v\<rparr> else mark)
          (marks s)) = mark_id ` set (marks s)"
    by (metis set_map)
  with SaveMarkName ex inv show ?thesis
    by (auto simp: saveMarkName_def Let_def)
next
  case (SaveMarkText i v)
  have "map mark_id (map (\<lambda>mark. if mark_id mark = i then mark\<lparr>markText := v\<rparr> else mark)
          (marks s)) = map mark_id (marks s)"
    by (induction "marks s") simp_all
  then have "mark_id ` set (map (\<lambda>mark. if mark_id mark = i then mark\<lparr>markText := v\<rparr> else mark)
          (marks s)) = mark_id ` set (marks s)"
    by (metis set_map)
  with SaveMarkText ex inv show ?thesis
    by (auto simp: saveMarkText_def Let_def)
next
  case (SaveNoteText i v)
  with ex inv show ?thesis
    by (auto simp: saveNoteText_def Let_def split: if_splits)
next
  case (DeleteNote i)
  with ex inv show ?thesis
    by (auto simp: deleteNote_def Let_def split: option.splits)
next
  case (DeleteMark i)
  with c show ?thesis by simp
next
  case Undo
  with ex inv show ?thesis
    by (auto simp: undoLastHighlight_def Let_def split: if_splits dest!: in_set_takeD)
qed

subsection \<open>Creating a note\<close>

text \<open>
  Claim C3. When a selection is present and either its position is unresolved or no mark
  has a resolved position at or before it, \<open>addHighlight\<close> and \<open>applyFormatting\<close> do not
  create a note: the outcome is not \<open>Done\<close> (it is the alert \<open>NoPrecedingMark\<close> whenever a
  rendition is present), the state with its notes and marks is the one before, no request
  is sent and the server's files stay as they are.
\<close>

theorem note_creation_rejected_without_preceding_mark:
  assumes sel: "currentSelection s = Some sel"
    and none: "resolve s (sel_cfiRange sel) = None \<or>
           (\<exists>p. resolve s (sel_cfiRange sel) = Some p \<and>
                (\<forall>m\<in>set (marks s). \<forall>q. resolve s (mark_cfiRange m) = Some q \<longrightarrow> \<not> q \<le> p))"
    and res: "res = addHighlight clk s \<or> res = applyFormatting formatType clk s"
  shows "fst res \<noteq> Done \<and>
         (rendition s \<noteq> None \<longrightarrow> fst res = NoPrecedingMark) \<and>
         fst (snd res) = s \<and> snd (snd res) = [] \<and> deliver (snd (snd res)) fs = fs"
proof -
  from findParentMark_None [OF none] have "findParentMark s (sel_cfiRange sel) = None" .
  with sel res show ?thesis
    by (auto simp: addHighlight_def applyFormatting_def deliver_def split: option.splits)
qed

theorem note_creation_rejected_without_preceding_mark_witness:
  "currentSelection (example_selected ''cfi-early'' [mark_M1, mark_M2] [note_N0]) =
     Some \<lparr> sel_cfiRange = ''cfi-early'', sel_text = ''xyz'' \<rparr> \<and>
   resolve (example_selected ''cfi-early'' [mark_M1, mark_M2] [note_N0]) ''cfi-early'' =
     Some (1 / 20) \<and>
   resolve (example_selected ''cfi-early'' [mark_M1, mark_M2] [note_N0]) ''cfi-m1'' =
     Some (1 / 10) \<and>
   resolve (example_selected ''cfi-early'' [mark_M1, mark_M2] [note_N0]) ''cfi-m2'' =
     Some (1 / 2) \<and>
   addHighlight example_clock (example_selected ''cfi-early'' [mark_M1, mark_M2] [note_N0]) =
     (NoPrecedingMark, example_selected ''cfi-early'' [mark_M1, mark_M2] [note_N0], []) \<and>
   deliver [] (example_files [mark_M1, mark_M2] [note_N0]) =
     example_files [mark_M1, mark_M2] [note_N0]"
proof -
  let ?s = "example_selected ''cfi-early'' [mark_M1, mark_M2] [note_N0]"
  let ?sel = "\<lparr> sel_cfiRange = ''cfi-early'', sel_text = ''xyz'' \<rparr>"
  have sel: "currentSelection ?s = Some ?sel"
    by (simp add: example_selected_def)
  have r0: "resolve ?s ''cfi-early'' = Some (1 / 20)"
    and r1: "resolve ?s ''cfi-m1'' = Some (1 / 10)"
    and r2: "resolve ?s ''cfi-m2'' = Some (1 / 2)"
    by (simp_all add: resolve_def example_defs)
  have ms: "marks ?s = [mark_M1, mark_M2]"
    by (simp add: example_selected_def example_app_def)
  have c1: "mark_cfiRange mark_M1 = ''cfi-m1''" and c2: "mark_cfiRange mark_M2 = ''cfi-m2''"
    by (simp_all add: mark_M1_def mark_M2_def)
  have "\<forall>m\<in>set (marks ?s). \<forall>q. resolve ?s (mark_cfiRange m) = Some q \<longrightarrow> \<not> q \<le> 1 / 20"
    using r1 r2 ms c1 c2 by auto
  with r0 have "resolve ?s (sel_cfiRange ?sel) = Some (1 / 20) \<and>
      (\<forall>m\<in>set (marks ?s). \<forall>q. resolve ?s (mark_cfiRange m) = Some q \<longrightarrow> \<not> q \<le> 1 / 20)"
    by simp
  then have none: "resolve ?s (sel_cfiRange ?sel) = None \<or>
           (\<exists>p. resolve ?s (sel_cfiRange ?sel) = Some p \<and>
                (\<forall>m\<in>set (marks ?s). \<forall>q. resolve ?s (mark_cfiRange m) = Some q \<longrightarrow> \<not> q \<le> p))"
    by blast
  have rend: "rendition ?s \<noteq> None"
    by (simp add: example_selected_def example_app_def)
  from note_creation_rejected_without_preceding_mark [OF sel none, of "addHighlight example_clock ?s"
      example_clock "''underline''" "example_files [mark_M1, mark_M2] [note_N0]"] rend
  have "addHighlight example_clock ?s = (NoPrecedingMark, ?s, [])"
    by (cases "addHighlight example_clock ?s") simp
  with sel r0 r1 r2 show ?thesis
    by (simp add: deliver_def)
qed




subsection \<open>The order of the mark list\<close>

lemma sort_insert_diff:
  fixes k :: "'a \<Rightarrow> rat"
  shows "sort_insert (\<lambda>a b. k a - k b) x ys = insort_key k x ys"
  by (induction ys) simp_all

lemma js_sort_diff:
  fixes k :: "'a \<Rightarrow> rat"
  shows "js_sort (\<lambda>a b. k a - k b) xs = sort_key k xs"
  by (induction xs) (simp_all add: js_sort_def sort_insert_diff)

lemma markCompare_ready:
  assumes "locationsReady s"
  shows "markCompare s =
     (\<lambda>a b. orZero (resolve s (mark_cfiRange a)) - orZero (resolve s (mark_cfiRange b)))"
  using assms
  by (intro ext) (auto simp: markCompare_def locationsReady_def resolve_def Let_def
      split: option.splits)

lemma markCompare_not_ready:
  assumes "\<not> locationsReady s"
  shows "markCompare s = (\<lambda>a b. of_nat (mark_timestamp a) - of_nat (mark_timestamp b))"
  using assms
  by (intro ext) (auto simp: markCompare_def locationsReady_def Let_def split: option.splits)

lemma resolve_not_ready: "\<not> locationsReady s \<Longrightarrow> resolve s c = None"
  by (auto simp: locationsReady_def resolve_def split: option.splits)

lemma sortedMarks_ready:
  "locationsReady s \<Longrightarrow>
   sortedMarks s = sort_key (\<lambda>m. orZero (resolve s (mark_cfiRange m))) (marks s)"
  by (simp add: sortedMarks_def markCompare_ready js_sort_diff)

lemma sortedMarks_not_ready:
  "\<not> locationsReady s \<Longrightarrow>
   sortedMarks s = sort_key (\<lambda>m. (of_nat (mark_timestamp m) :: rat)) (marks s)"
  by (simp add: sortedMarks_def markCompare_not_ready js_sort_diff)

lemma mset_sortedMarks: "mset (sortedMarks s) = mset (marks s)"
  by (cases "locationsReady s") (simp_all add: sortedMarks_ready sortedMarks_not_ready)

lemma sorted_by_timestamp:
  "sorted (map mark_timestamp (sort_key (\<lambda>m. (of_nat (mark_timestamp m) :: rat)) xs))"
proof -
  have "sorted (map (\<lambda>m. (of_nat (mark_timestamp m) :: rat))
          (sort_key (\<lambda>m. (of_nat (mark_timestamp m) :: rat)) xs))"
    by (rule sorted_sort_key)
  then show ?thesis by (simp add: sorted_map)
qed

lemma stable_by_timestamp:
  "filter (\<lambda>m. mark_timestamp m = t) (sort_key (\<lambda>m. (of_nat (mark_timestamp m) :: rat)) xs) =
   filter (\<lambda>m. mark_timestamp m = t) xs"
  using sort_key_stable [of "\<lambda>m. (of_nat (mark_timestamp m) :: rat)" "of_nat t" xs]
  by simp

text \<open>
  Claim C5 as stated fails: with the locations generated, a mark at 0.5 and a mark whose
  CFI has no position, the sorted list starts with the mark without a position.
\<close>

theorem sortedMarks_puts_unresolved_first:
  "sortedMarks (example_app [mark_M2, mark_U] []) = [mark_U, mark_M2] \<and>
   resolve (example_app [mark_M2, mark_U] []) (mark_cfiRange mark_U) = None \<and>
   resolve (example_app [mark_M2, mark_U] []) (mark_cfiRange mark_M2) = Some (1 / 2)"
  by (simp add: sortedMarks_def js_sort_def markCompare_def orZero_def resolve_def Let_def
      example_defs)

text \<open>
  Claim C5, amended. The sorted list is a rearrangement of the marks. While the
  locations are generated it is ascending in the position of each mark, where a mark
  without a position counts as position 0 (\<open>orZero\<close>), and marks of equal key keep their
  stored order. While the locations are not generated no CFI has a position, and the list
  is ascending in the creation timestamp, marks of equal timestamp keeping their stored
  order.
\<close>

theorem sortedMarks_unresolved_counts_as_zero:
  "mset (sortedMarks s) = mset (marks s) \<and>
   orZero None = 0 \<and> (\<forall>v. orZero (Some v) = v) \<and>
   (locationsReady s \<longrightarrow>
      sorted (map (\<lambda>m. orZero (resolve s (mark_cfiRange m))) (sortedMarks s)) \<and>
      (\<forall>k. filter (\<lambda>m. orZero (resolve s (mark_cfiRange m)) = k) (sortedMarks s) =
           filter (\<lambda>m. orZero (resolve s (mark_cfiRange m)) = k) (marks s))) \<and>
   (\<not> locationsReady s \<longrightarrow>
      (\<forall>c. resolve s c = None) \<and>
      sorted (map mark_timestamp (sortedMarks s)) \<and>
      (\<forall>t. filter (\<lambda>m. mark_timestamp m = t) (sortedMarks s) =
           filter (\<lambda>m. mark_timestamp m = t) (marks s)))"
proof -
  have a: "mset (sortedMarks s) = mset (marks s)" by (rule mset_sortedMarks)
  have b: "orZero None = 0 \<and> (\<forall>v. orZero (Some v) = v)" by (simp add: orZero_def)
  have c: "locationsReady s \<longrightarrow>
      sorted (map (\<lambda>m. orZero (resolve s (mark_cfiRange m))) (sortedMarks s)) \<and>
      (\<forall>k. filter (\<lambda>m. orZero (resolve s (mark_cfiRange m)) = k) (sortedMarks s) =
           filter (\<lambda>m. orZero (resolve s (mark_cfiRange m)) = k) (marks s))"
    by (simp add: sortedMarks_ready sort_key_stable)
  have d: "\<not> locationsReady s \<longrightarrow>
      (\<forall>c. resolve s c = None) \<and>
      sorted (map mark_timestamp (sortedMarks s)) \<and>
      (\<forall>t. filter (\<lambda>m. mark_timestamp m = t) (sortedMarks s) =
           filter (\<lambda>m. mark_timestamp m = t) (marks s))"
    by (simp add: sortedMarks_not_ready sorted_by_timestamp stable_by_timestamp
        resolve_not_ready)
  from a b c d show ?thesis by blast
qed

theorem sortedMarks_unresolved_counts_as_zero_witness:
  "locationsReady (example_app [mark_M2, mark_U, mark_M1] []) \<and>
   sorted (map (\<lambda>m. orZero (resolve (example_app [mark_M2, mark_U, mark_M1] [])
                               (mark_cfiRange m)))
             (sortedMarks (example_app [mark_M2, mark_U, mark_M1] []))) \<and>
   \<not> locationsReady ((example_app [mark_M2, mark_U, mark_M1] [])\<lparr>rendition := None\<rparr>) \<and>
   sorted (map mark_timestamp
             (sortedMarks ((example_app [mark_M2, mark_U, mark_M1] [])\<lparr>rendition := None\<rparr>)))"
proof -
  have r: "locationsReady (example_app [mark_M2, mark_U, mark_M1] [])"
    by (simp add: locationsReady_def example_app_def example_locations_def)
  have n: "\<not> locationsReady ((example_app [mark_M2, mark_U, mark_M1] [])\<lparr>rendition := None\<rparr>)"
    by (simp add: locationsReady_def)
  from sortedMarks_unresolved_counts_as_zero [of "example_app [mark_M2, mark_U, mark_M1] []"]
    sortedMarks_unresolved_counts_as_zero
      [of "(example_app [mark_M2, mark_U, mark_M1] [])\<lparr>rendition := None\<rparr>"] r n
  show ?thesis by blast
qed

subsection \<open>Deleting a mark twice\<close>

lemma deleteMark_result:
  "deleteMarkWithReassignment i s =
     (Done,
      s\<lparr>marks := filter (\<lambda>mark. mark_id mark \<noteq> i) (marks s),
        notes := map (\<lambda>note. if markId note = Some i
                   then note\<lparr>markId := (case findParentMark s (note_cfiRange note) of
                                           Some m \<Rightarrow> Some (mark_id m) | None \<Rightarrow> None)\<rparr>
                   else note) (notes s)\<rparr>,
      [UpdateMarks (filter (\<lambda>mark. mark_id mark \<noteq> i) (marks s)),
       UpdateNotes (map (\<lambda>note. if markId note = Some i
                   then note\<lparr>markId := (case findParentMark s (note_cfiRange note) of
                                           Some m \<Rightarrow> Some (mark_id m) | None \<Rightarrow> None)\<rparr>
                   else note) (notes s))])"
  by (simp add: deleteMarkWithReassignment_def Let_def)

text \<open>
  Claim C6 as stated fails: after M2 has been deleted from the marks M1, M2 with a note
  under M2, a second deletion of M2 runs through with outcome \<open>Done\<close> and moves the note
  under M1, so the state differs from the one after the first deletion.
\<close>

theorem second_delete_of_mark_reparents:
  "fst (snd (deleteMarkWithReassignment ''mark-2'' (example_app [mark_M1, mark_M2] [note_N]))) =
     example_app [mark_M1] [note_N] \<and>
   fst (deleteMarkWithReassignment ''mark-2'' (example_app [mark_M1] [note_N])) = Done \<and>
   fst (snd (deleteMarkWithReassignment ''mark-2'' (example_app [mark_M1] [note_N]))) =
     example_app [mark_M1] [note_N\<lparr>markId := Some ''mark-1''\<rparr>] \<and>
   example_app [mark_M1] [note_N\<lparr>markId := Some ''mark-1''\<rparr>] \<noteq> example_app [mark_M1] [note_N]"
  by (simp add: deleteMarkWithReassignment_def findParentMark_def Let_def example_defs
      example_distances)

text \<open>
  Claim C6, amended. A second deletion of the same mark id reports no failure; it
  leaves the mark collection as the first deletion left it, keeps the number of notes and
  every note whose \<open>markId\<close> is another one; and when no note refers to the id after the
  first deletion, the state, the requests and the files of the server after the second
  deletion are those after the first.
\<close>

theorem second_delete_of_mark:
  assumes first: "deleteMarkWithReassignment i s = (out1, s1, rs1)"
    and second: "deleteMarkWithReassignment i s1 = (out2, s2, rs2)"
  shows "out2 = Done \<and> marks s2 = marks s1 \<and>
         length (notes s2) = length (notes s1) \<and>
         (\<forall>k<length (notes s1). markId (notes s1 ! k) \<noteq> Some i \<longrightarrow>
            notes s2 ! k = notes s1 ! k) \<and>
         ((\<forall>n\<in>set (notes s1). markId n \<noteq> Some i) \<longrightarrow>
            s2 = s1 \<and> rs2 = rs1 \<and> deliver rs2 (deliver rs1 fs) = deliver rs1 fs)"
proof -
  let ?f = "\<lambda>st note. if markId note = Some i
              then note\<lparr>markId := (case findParentMark st (note_cfiRange note) of
                                      Some m \<Rightarrow> Some (mark_id m) | None \<Rightarrow> None)\<rparr>
              else note"
  from first have s1: "marks s1 = filter (\<lambda>mark. mark_id mark \<noteq> i) (marks s)"
    and rs1: "rs1 = [UpdateMarks (marks s1), UpdateNotes (notes s1)]"
    by (auto simp: deleteMark_result)
  from second have out2: "out2 = Done"
    and s2: "s2 = s1\<lparr>marks := filter (\<lambda>mark. mark_id mark \<noteq> i) (marks s1),
                      notes := map (?f s1) (notes s1)\<rparr>"
    and rs2: "rs2 = [UpdateMarks (marks s2), UpdateNotes (notes s2)]"
    by (auto simp: deleteMark_result)
  from s1 have m: "filter (\<lambda>mark. mark_id mark \<noteq> i) (marks s1) = marks s1"
    by simp
  with s2 have ms: "marks s2 = marks s1" by simp
  from s2 have ns: "notes s2 = map (?f s1) (notes s1)" by simp
  then have len: "length (notes s2) = length (notes s1)" by simp
  from ns have nth: "\<forall>k<length (notes s1). markId (notes s1 ! k) \<noteq> Some i \<longrightarrow>
            notes s2 ! k = notes s1 ! k"
    by simp
  have same: "s2 = s1 \<and> rs2 = rs1 \<and> deliver rs2 (deliver rs1 fs) = deliver rs1 fs"
    if "\<forall>n\<in>set (notes s1). markId n \<noteq> Some i"
  proof -
    from that have "map (?f s1) (notes s1) = notes s1"
      by (intro map_idI) simp
    with s2 m have eq: "s2 = s1" by simp
    with rs1 rs2 have "rs2 = rs1" by simp
    moreover from rs1 have "deliver rs1 (deliver rs1 fs) = deliver rs1 fs"
      by (simp add: deliver_def update_marks_def update_notes_def)
    ultimately show ?thesis using eq by simp
  qed
  from out2 ms len nth same show ?thesis by blast
qed

theorem second_delete_of_mark_witness:
  "deleteMarkWithReassignment ''mark-2'' (example_app [mark_M1, mark_M2] [note_N0]) =
     (Done, example_app [mark_M1] [note_N0], [UpdateMarks [mark_M1], UpdateNotes [note_N0]]) \<and>
   deleteMarkWithReassignment ''mark-2'' (example_app [mark_M1] [note_N0]) =
     (Done, example_app [mark_M1] [note_N0], [UpdateMarks [mark_M1], UpdateNotes [note_N0]])"
proof -
  have first: "deleteMarkWithReassignment ''mark-2'' (example_app [mark_M1, mark_M2] [note_N0]) =
     (Done, example_app [mark_M1] [note_N0], [UpdateMarks [mark_M1], UpdateNotes [note_N0]])"
    by (simp add: deleteMark_result example_defs)
  obtain out2 s2 rs2 where second:
    "deleteMarkWithReassignment ''mark-2'' (example_app [mark_M1] [note_N0]) = (out2, s2, rs2)"
    by (metis prod_cases3)
  have "\<forall>n\<in>set (notes (example_app [mark_M1] [note_N0])). markId n \<noteq> Some ''mark-2''"
    by (simp add: example_defs)
  with second_delete_of_mark [OF first second, of "example_files [] []"]
  have "out2 = Done \<and> s2 = example_app [mark_M1] [note_N0] \<and>
        rs2 = [UpdateMarks [mark_M1], UpdateNotes [note_N0]]"
    by blast
  with first second show ?thesis by simp
qed

subsection \<open>What is sent to the server\<close>

lemma toString_42: "toString 42 = ''42''"
  by code_simp

lemma toString_2: "toString (Suc (Suc 0)) = ''2''"
  by code_simp

text \<open>
  Claim C7 as stated fails: \<open>addMark\<close> sends the new record alone, not the resulting
  collection, and the server stores the previously stored array with the record
  appended.
\<close>

theorem addMark_sends_one_record:
  "addMark example_clock (example_selected ''cfi-n'' [mark_M1] []) =
     (Done, example_app [mark_M1, mark_new] [], [SaveMark mark_new]) \<and>
   SaveMark mark_new \<noteq> UpdateMarks [mark_M1, mark_new] \<and>
   marksFile (example_files [mark_M1] []) = Some [mark_M1] \<and>
   marksFile (deliver [SaveMark mark_new] (example_files [mark_M1] [])) =
     Some ([mark_M1] @ [mark_new])"
  by (simp add: addMark_def Let_def toString_42 toString_2 deliver_def save_mark_def
      json_defs example_defs)

text \<open>
  Claim C7, amended. A command that does not create a record (renaming, editing,
  deleting, undo) sends only requests that carry the whole resulting mark or note
  collection, and sends one for each collection it changed. A command that creates a
  record either changes nothing and sends nothing, or appends one record to one
  collection and sends that record alone. The server handles a request whose body is at
  most 102400 bytes long by replacing the stored collection with exactly the collection
  sent, or by appending the record sent to what it has stored (to the empty array when
  the file cannot be read); a request with a longer body leaves the files as they are.
\<close>

theorem requests_of_commands:
  assumes "exec c s = (out, s', rs)"
  shows "(\<not> creates c \<longrightarrow>
            (\<forall>r\<in>set rs. r = UpdateMarks (marks s') \<or> r = UpdateNotes (notes s')) \<and>
            (marks s' \<noteq> marks s \<longrightarrow> UpdateMarks (marks s') \<in> set rs) \<and>
            (notes s' \<noteq> notes s \<longrightarrow> UpdateNotes (notes s') \<in> set rs)) \<and>
         (creates c \<longrightarrow>
            (rs = [] \<and> s' = s) \<or>
            (\<exists>m. rs = [SaveMark m] \<and> marks s' = marks s @ [m] \<and> notes s' = notes s) \<or>
            (\<exists>n. rs = [SaveNote n] \<and> notes s' = notes s @ [n] \<and> marks s' = marks s)) \<and>
         handle r fs =
           (if length (requestBody r) \<le> 102400 then
              (case r of
                 UpdateMarks X \<Rightarrow> fs\<lparr>marksFile := Some X\<rparr>
               | UpdateNotes Y \<Rightarrow> fs\<lparr>notesFile := Some Y\<rparr>
               | SaveMark m0 \<Rightarrow> fs\<lparr>marksFile := Some (load_marks fs @ [m0])\<rparr>
               | SaveNote n0 \<Rightarrow> fs\<lparr>notesFile := Some (load_notes fs @ [n0])\<rparr>)
            else fs)"
proof -
  have server:
    "handle r fs =
       (if length (requestBody r) \<le> 102400 then
          (case r of
             UpdateMarks X \<Rightarrow> fs\<lparr>marksFile := Some X\<rparr>
           | UpdateNotes Y \<Rightarrow> fs\<lparr>notesFile := Some Y\<rparr>
           | SaveMark m0 \<Rightarrow> fs\<lparr>marksFile := Some (load_marks fs @ [m0])\<rparr>
           | SaveNote n0 \<Rightarrow> fs\<lparr>notesFile := Some (load_notes fs @ [n0])\<rparr>)
        else fs)"
    by (cases r)
      (simp_all add: update_marks_def update_notes_def save_mark_def save_note_def
        load_marks_def load_notes_def bodyAccepted_def bodyLimit_def)
  have client:
    "(\<not> creates c \<longrightarrow>
        (\<forall>r\<in>set rs. r = UpdateMarks (marks s') \<or> r = UpdateNotes (notes s')) \<and>
        (marks s' \<noteq> marks s \<longrightarrow> UpdateMarks (marks s') \<in> set rs) \<and>
        (notes s' \<noteq> notes s \<longrightarrow> UpdateNotes (notes s') \<in> set rs)) \<and>
     (creates c \<longrightarrow>
        (rs = [] \<and> s' = s) \<or>
        (\<exists>m. rs = [SaveMark m] \<and> marks s' = marks s @ [m] \<and> notes s' = notes s) \<or>
        (\<exists>n. rs = [SaveNote n] \<and> notes s' = notes s @ [n] \<and> marks s' = marks s))"
  proof (cases c)
    case (AddMark clk)
    with assms show ?thesis
      by (auto simp: addMark_def Let_def split: option.splits)
  next
    case (AddHighlight clk)
    with assms show ?thesis
      by (auto simp: addHighlight_def Let_def split: option.splits)
  next
    case (ApplyFormatting formatType clk)
    with assms show ?thesis
      by (auto simp: applyFormatting_def Let_def split: option.splits)
  next
    case (SaveMarkName i v)
    with assms show ?thesis
      by (auto simp: saveMarkName_def Let_def)
  next
    case (SaveMarkText i v)
    with assms show ?thesis
      by (auto simp: saveMarkText_def Let_def)
  next
    case (SaveNoteText i v)
    with assms show ?thesis
      by (auto simp: saveNoteText_def Let_def)
  next
    case (DeleteNote i)
    with assms show ?thesis
      by (auto simp: deleteNote_def Let_def split: option.splits)
  next
    case (DeleteMark i)
    with assms show ?thesis
      by (auto simp: deleteMarkWithReassignment_def Let_def)
  next
    case Undo
    with assms show ?thesis
      by (auto simp: undoLastHighlight_def Let_def split: if_splits)
  qed
  from client server show ?thesis by blast
qed

theorem requests_of_commands_witness:
  "exec (DeleteNote ''note-0'') (example_app [mark_M1, mark_M2] [note_N0, note_N]) =
     (Done, example_app [mark_M1, mark_M2] [note_N], [UpdateNotes [note_N]]) \<and>
   \<not> creates (DeleteNote ''note-0'') \<and>
   notes (example_app [mark_M1, mark_M2] [note_N]) \<noteq>
     notes (example_app [mark_M1, mark_M2] [note_N0, note_N]) \<and>
   UpdateNotes (notes (example_app [mark_M1, mark_M2] [note_N])) \<in> set [UpdateNotes [note_N]] \<and>
   length (requestBody (UpdateNotes [note_N])) \<le> 102400 \<and>
   handle (UpdateNotes [note_N]) (example_files [mark_M1, mark_M2] [note_N0, note_N]) =
     (example_files [mark_M1, mark_M2] [note_N0, note_N])\<lparr>notesFile := Some [note_N]\<rparr> \<and>
   exec (AddMark example_clock) (example_selected ''cfi-n'' [mark_M1] []) =
     (Done, example_app [mark_M1, mark_new] [], [SaveMark mark_new]) \<and>
   creates (AddMark example_clock) \<and>
   length (requestBody (SaveMark mark_new)) \<le> 102400 \<and>
   handle (SaveMark mark_new) (example_files [mark_M1] []) =
     (example_files [mark_M1] [])\<lparr>marksFile := Some (load_marks (example_files [mark_M1] []) @ [mark_new])\<rparr> \<and>
   102400 < length (requestBody (UpdateMarks [mark_big])) \<and>
   handle (UpdateMarks [mark_big]) (example_files [mark_M1] []) = example_files [mark_M1] []"
proof -
  have e1: "exec (DeleteNote ''note-0'') (example_app [mark_M1, mark_M2] [note_N0, note_N]) =
     (Done, example_app [mark_M1, mark_M2] [note_N], [UpdateNotes [note_N]])"
    by (simp add: deleteNote_def Let_def example_defs)
  have e2: "exec (AddMark example_clock) (example_selected ''cfi-n'' [mark_M1] []) =
     (Done, example_app [mark_M1, mark_new] [], [SaveMark mark_new])"
    by (simp add: addMark_def Let_def toString_42 toString_2 example_defs)
  have d: "notes (example_app [mark_M1, mark_M2] [note_N]) \<noteq>
     notes (example_app [mark_M1, mark_M2] [note_N0, note_N])"
    by (simp add: example_app_def)
  have b1: "length (requestBody (UpdateNotes [note_N])) \<le> 102400"
    and b2: "length (requestBody (SaveMark mark_new)) \<le> 102400"
    by (simp_all add: json_defs example_defs)
  have b3: "102400 < length (requestBody (UpdateMarks [mark_big]))"
    using body_longer_than_text [of mark_big] by (simp add: mark_big_def)
  from requests_of_commands [OF e1, of "UpdateNotes [note_N]"
      "example_files [mark_M1, mark_M2] [note_N0, note_N]"]
    requests_of_commands [OF e2, of "SaveMark mark_new" "example_files [mark_M1] []"]
    requests_of_commands [OF e2, of "UpdateMarks [mark_big]" "example_files [mark_M1] []"]
    e1 e2 d b1 b2 b3
  show ?thesis by simp
qed

subsection \<open>Saving and loading the marks\<close>

text \<open>
  Claim C8 as stated fails: the request that saves a collection holding one mark with
  102400 characters of selected text has a body of more than 102400 bytes; the server
  does not write it, and loading returns the marks stored before.
\<close>

theorem oversized_marks_not_saved:
  "102400 < length (requestBody (UpdateMarks [mark_big])) \<and>
   load_marks (example_files [mark_M1] []) = [mark_M1] \<and>
   load_marks (update_marks [mark_big] (example_files [mark_M1] [])) = [mark_M1] \<and>
   [mark_M1] \<noteq> [mark_big]"
proof -
  have big: "102400 < length (requestBody (UpdateMarks [mark_big]))"
    using body_longer_than_text [of mark_big] by (simp add: mark_big_def)
  then have "update_marks [mark_big] (example_files [mark_M1] []) = example_files [mark_M1] []"
    by (simp add: update_marks_def bodyAccepted_def bodyLimit_def)
  moreover have "load_marks (example_files [mark_M1] []) = [mark_M1]"
    by (simp add: load_marks_def example_files_def)
  moreover have "mark_M1 \<noteq> mark_big"
  proof
    assume "mark_M1 = mark_big"
    then have "length (mark_text mark_M1) = length (mark_text mark_big)" by simp
    then show False by (simp add: mark_M1_def mark_big_def)
  qed
  ultimately show ?thesis using big by simp
qed

text \<open>
  Claim C8, amended. For every collection \<open>X\<close> of marks whose request body, the JSON text
  of the object holding \<open>X\<close>, is at most 102400 bytes long, saving \<open>X\<close> through
  \<open>/api/update-marks\<close> and loading it through \<open>/api/load-marks\<close> returns \<open>X\<close>, whatever the
  files held before, and the client's \<open>loadMarks\<close> then installs \<open>X\<close> as its marks; the
  body of the empty collection is that short. A collection with a longer body is not
  stored: the files stay as they were and loading returns what was stored before.
\<close>

theorem marks_save_load_roundtrip:
  "(length (requestBody (UpdateMarks X)) \<le> 102400 \<longrightarrow>
      load_marks (update_marks X fs) = X \<and>
      load_marks (deliver [UpdateMarks X] fs) = X \<and>
      marks (loadMarks (deliver [UpdateMarks X] fs) s) = X) \<and>
   length (requestBody (UpdateMarks [])) \<le> 102400 \<and>
   (102400 < length (requestBody (UpdateMarks X)) \<longrightarrow>
      update_marks X fs = fs \<and>
      load_marks (deliver [UpdateMarks X] fs) = load_marks fs)"
proof -
  have a: "length (requestBody (UpdateMarks X)) \<le> 102400 \<longrightarrow>
      load_marks (update_marks X fs) = X \<and>
      load_marks (deliver [UpdateMarks X] fs) = X \<and>
      marks (loadMarks (deliver [UpdateMarks X] fs) s) = X"
    by (simp add: load_marks_def update_marks_def deliver_def loadMarks_def bodyAccepted_def
        bodyLimit_def)
  have b: "length (requestBody (UpdateMarks [])) \<le> 102400"
    by (simp add: json_defs)
  have c: "102400 < length (requestBody (UpdateMarks X)) \<longrightarrow>
      update_marks X fs = fs \<and>
      load_marks (deliver [UpdateMarks X] fs) = load_marks fs"
    by (simp add: update_marks_def deliver_def bodyAccepted_def bodyLimit_def)
  from a b c show ?thesis by blast
qed

theorem marks_save_load_roundtrip_witness:
  "length (requestBody (UpdateMarks [mark_M1, mark_M2])) \<le> 102400 \<and>
   load_marks (update_marks [mark_M1, mark_M2] (example_files [mark_U] [])) =
     [mark_M1, mark_M2] \<and>
   load_marks (update_marks [] (example_files [mark_U] [])) = [] \<and>
   102400 < length (requestBody (UpdateMarks [mark_big])) \<and>
   update_marks [mark_big] (example_files [mark_U] []) = example_files [mark_U] []"
proof -
  have small: "length (requestBody (UpdateMarks [mark_M1, mark_M2])) \<le> 102400"
    by (simp add: json_defs example_defs)
  have big: "102400 < length (requestBody (UpdateMarks [mark_big]))"
    using body_longer_than_text [of mark_big] by (simp add: mark_big_def)
  from marks_save_load_roundtrip [of "[mark_M1, mark_M2]" "example_files [mark_U] []"
      "example_app [] []"]
    marks_save_load_roundtrip [of "[]" "example_files [mark_U] []" "example_app [] []"]
    marks_save_load_roundtrip [of "[mark_big]" "example_files [mark_U] []" "example_app [] []"]
    small big
  show ?thesis by simp
qed

subsection \<open>Deleting a note\<close>

lemma deleteNote_found:
  assumes "noteId \<in> note_id ` set (notes s)"
  shows "deleteNote noteId s =
     (Done, s\<lparr>notes := filter (\<lambda>n. note_id n \<noteq> noteId) (notes s)\<rparr>,
      [UpdateNotes (filter (\<lambda>n. note_id n \<noteq> noteId) (notes s))])"
proof -
  from assms have "find (\<lambda>note. note_id note = noteId) (notes s) \<noteq> None"
    by (auto simp: find_None_iff)
  then show ?thesis
    by (auto simp: deleteNote_def Let_def split: option.splits)
qed

text \<open>
  Claim C9. Deleting a note whose id is in the note collection succeeds and keeps, in
  their order and with all their fields, exactly the notes with another id; the marks and
  every other part of the state are unchanged, the only request is the new note
  collection, and the stored marks are untouched. When the ids of the notes are unique,
  exactly one record is removed: the collection was \<open>ys @ n # zs\<close> with \<open>n\<close> the note of that
  id, and it becomes \<open>ys @ zs\<close>.
\<close>

theorem deleteNote_removes_only_that_note:
  assumes "noteId \<in> note_id ` set (notes s)"
  shows "\<exists>s'. deleteNote noteId s = (Done, s', [UpdateNotes (notes s')]) \<and>
           notes s' = filter (\<lambda>n. note_id n \<noteq> noteId) (notes s) \<and>
           marks s' = marks s \<and>
           s' = s\<lparr>notes := notes s'\<rparr> \<and>
           marksFile (deliver [UpdateNotes (notes s')] fs) = marksFile fs \<and>
           (distinct (map note_id (notes s)) \<longrightarrow>
              (\<exists>ys n zs. notes s = ys @ n # zs \<and> note_id n = noteId \<and> notes s' = ys @ zs))"
  using deleteNote_found [OF assms] filter_distinct_remove [of note_id "notes s" noteId] assms
  by (simp add: deliver_def update_notes_def)

theorem deleteNote_removes_only_that_note_witness:
  "''note-0'' \<in> note_id ` set (notes (example_app [mark_M1, mark_M2] [note_N0, note_N])) \<and>
   distinct (map note_id (notes (example_app [mark_M1, mark_M2] [note_N0, note_N]))) \<and>
   (\<exists>s'. deleteNote ''note-0'' (example_app [mark_M1, mark_M2] [note_N0, note_N]) =
            (Done, s', [UpdateNotes (notes s')]) \<and>
         notes s' = [note_N] \<and> marks s' = [mark_M1, mark_M2])"
proof -
  have h: "''note-0'' \<in> note_id ` set (notes (example_app [mark_M1, mark_M2] [note_N0, note_N]))"
    by (simp add: example_defs)
  have d: "distinct (map note_id (notes (example_app [mark_M1, mark_M2] [note_N0, note_N])))"
    by (simp add: example_defs)
  have f: "filter (\<lambda>n. note_id n \<noteq> ''note-0'') [note_N0, note_N] = [note_N]"
    by (simp add: example_defs)
  from deleteNote_removes_only_that_note [OF h, of "example_files [] []"] f h d
  show ?thesis
    by (auto simp: example_app_def)
qed

subsection \<open>Undo\<close>

text \<open>
  Claim C10. When the note collection is not empty, undo removes its last element and
  nothing else: the notes before it keep their order, the marks and the rest of the state
  are unchanged, and the new collection is sent to the server, which leaves the stored
  marks alone. When the note collection is empty, undo changes nothing and sends nothing.
\<close>

theorem undo_removes_last_note:
  "(notes s \<noteq> [] \<longrightarrow>
      (\<exists>s'. undoLastHighlight s = (Done, s', [UpdateNotes (notes s')]) \<and>
            notes s = notes s' @ [last (notes s)] \<and>
            marks s' = marks s \<and>
            s' = s\<lparr>notes := butlast (notes s)\<rparr> \<and>
            marksFile (deliver [UpdateNotes (notes s')] fs) = marksFile fs)) \<and>
   (notes s = [] \<longrightarrow> undoLastHighlight s = (Ignored, s, []) \<and> deliver [] fs = fs)"
  by (simp add: undoLastHighlight_def Let_def take_all_but_last deliver_def update_notes_def)

theorem undo_removes_last_note_witness:
  "notes (example_app [mark_M1, mark_M2] [note_N0, note_N]) \<noteq> [] \<and>
   (\<exists>s'. undoLastHighlight (example_app [mark_M1, mark_M2] [note_N0, note_N]) =
            (Done, s', [UpdateNotes (notes s')]) \<and>
         notes s' = [note_N0] \<and> marks s' = [mark_M1, mark_M2]) \<and>
   undoLastHighlight (example_app [mark_M1, mark_M2] []) =
     (Ignored, example_app [mark_M1, mark_M2] [], [])"
  using undo_removes_last_note [of "example_app [mark_M1, mark_M2] [note_N0, note_N]"
      "example_files [] []"]
    undo_removes_last_note [of "example_app [mark_M1, mark_M2] []" "example_files [] []"]
  by (auto simp: example_app_def)

end
